theory Spec2Isabelle
  imports
    Main
    "HOL-Library.AList"
    "HOL-Library.Char_ord"
    "HOL-Library.List_Lexorder"
    "HOL-Library.Multiset"
    "HOL-Library.Word"
begin

section \<open>Go strings, bytes and runes\<close>

text \<open>
  A Go \<^verbatim>\<open>string\<close> is a sequence of bytes; it is modelled as \<^typ>\<open>string\<close>, a list of
  8-bit characters. A \<^verbatim>\<open>rune\<close> is a signed integer holding a code point. Strings are
  compared bytewise, which is the order of \<^theory_text>\<open>Char_ord\<close> lifted by
  \<^theory_text>\<open>List_Lexorder\<close>.
\<close>

type_synonym rune = int

definition byte :: "char \<Rightarrow> int" where
  "byte c = of_char c"

definition RuneError :: rune where
  "RuneError = 0xFFFD"

text \<open>
  \<^verbatim>\<open>utf8.DecodeRuneInString\<close>: the first rune of a string and its width in bytes. The
  lookup tables of the library (\<^verbatim>\<open>first\<close>, \<^verbatim>\<open>acceptRanges\<close>) are written out as the
  comparisons they encode, and a mask followed by a shift as \<open>mod\<close> and a product. An
  encoding that is not well-formed gives \<open>(RuneError, 1)\<close>.
\<close>

definition DecodeRuneInString :: "string \<Rightarrow> rune \<times> nat" where
  "DecodeRuneInString s =
     (if length s < 1 then (RuneError, 0)
      else
        let s0 = byte (s ! 0) in
        if s0 < 0x80 then (s0, 1)
        else if s0 < 0xC2 \<or> 0xF4 < s0 then (RuneError, 1)
        else
          let sz = (if s0 < 0xE0 then 2 else if s0 < 0xF0 then 3 else 4);
              lo = (if s0 = 0xE0 then 0xA0 else if s0 = 0xF0 then 0x90 else 0x80);
              hi = (if s0 = 0xED then 0x9F else if s0 = 0xF4 then 0x8F else 0xBF)
          in
          if length s < sz then (RuneError, 1)
          else
            let s1 = byte (s ! 1) in
            if s1 < lo \<or> hi < s1 then (RuneError, 1)
            else if sz \<le> 2 then ((s0 mod 32) * 64 + s1 mod 64, 2)
            else
              let s2 = byte (s ! 2) in
              if s2 < 0x80 \<or> 0xBF < s2 then (RuneError, 1)
              else if sz \<le> 3 then
                ((s0 mod 16) * 4096 + (s1 mod 64) * 64 + s2 mod 64, 3)
              else
                let s3 = byte (s ! 3) in
                if s3 < 0x80 \<or> 0xBF < s3 then (RuneError, 1)
                else
                  ((s0 mod 8) * 262144 + (s1 mod 64) * 4096 + (s2 mod 64) * 64
                     + s3 mod 64, 4))"

text \<open>
  \<^verbatim>\<open>for _, s := range str\<close>: the runes of a string in order. A byte that starts no
  well-formed encoding is delivered as \<open>RuneError\<close> and the loop advances by one byte.
\<close>

fun range_string :: "string \<Rightarrow> rune list" where
  "range_string [] = []"
| "range_string (c # cs) =
     (case DecodeRuneInString (c # cs) of
        (r, w) \<Rightarrow> r # range_string (drop (w - 1) cs))"

text \<open>\<^verbatim>\<open>utf8.RuneLen\<close>: the number of bytes of a rune's encoding, \<open>-1\<close> for a value
  that is no code point.\<close>

definition RuneLen :: "rune \<Rightarrow> int" where
  "RuneLen r =
     (if r < 0 then -1
      else if r \<le> 0x7F then 1
      else if r \<le> 0x7FF then 2
      else if 0xD800 \<le> r \<and> r \<le> 0xDFFF then -1
      else if r \<le> 0xFFFF then 3
      else if r \<le> 0x10FFFF then 4
      else -1)"

text \<open>\<^verbatim>\<open>utf8.EncodeRune\<close>: the bytes written for a rune; a value that is no code point
  is written as \<open>RuneError\<close>.\<close>

definition EncodeRune :: "rune \<Rightarrow> char list" where
  "EncodeRune r0 =
     (if 0 \<le> r0 \<and> r0 \<le> 0x7F then [char_of r0]
      else if 0 \<le> r0 \<and> r0 \<le> 0x7FF then
        [char_of (0xC0 + r0 div 64), char_of (0x80 + r0 mod 64)]
      else
        let r = (if r0 < 0 \<or> 0x10FFFF < r0 \<or> (0xD800 \<le> r0 \<and> r0 \<le> 0xDFFF)
                 then RuneError else r0)
        in
        if r \<le> 0xFFFF then
          [char_of (0xE0 + r div 4096), char_of (0x80 + (r div 64) mod 64),
           char_of (0x80 + r mod 64)]
        else
          [char_of (0xF0 + r div 262144), char_of (0x80 + (r div 4096) mod 64),
           char_of (0x80 + (r div 64) mod 64), char_of (0x80 + r mod 64)])"

text \<open>The conversion \<^verbatim>\<open>string(r)\<close> of a rune is its encoding.\<close>

definition string_of_rune :: "rune \<Rightarrow> string" where
  "string_of_rune r = EncodeRune r"

subsection \<open>Package strings\<close>

definition HasPrefix :: "string \<Rightarrow> string \<Rightarrow> bool" where
  "HasPrefix s pre = (length pre \<le> length s \<and> take (length pre) s = pre)"

definition HasSuffix :: "string \<Rightarrow> string \<Rightarrow> bool" where
  "HasSuffix s suf =
     (length suf \<le> length s \<and> drop (length s - length suf) s = suf)"

definition TrimSuffix :: "string \<Rightarrow> string \<Rightarrow> string" where
  "TrimSuffix s suf =
     (if HasSuffix s suf then take (length s - length suf) s else s)"

fun Contains :: "string \<Rightarrow> string \<Rightarrow> bool" where
  "Contains [] substr = (substr = [])"
| "Contains (c # cs) substr = (HasPrefix (c # cs) substr \<or> Contains cs substr)"

text \<open>
  \<^verbatim>\<open>strings.ToLower\<close> and \<^verbatim>\<open>strings.ToUpper\<close> on the bytes of ASCII letters. The
  program applies them to header names and to hexadecimal digits; the case mapping of
  letters outside ASCII is not part of this model, such bytes are left as they are.
\<close>

definition ToLower :: "string \<Rightarrow> string" where
  "ToLower s =
     map (\<lambda>c. if 0x41 \<le> byte c \<and> byte c \<le> 0x5A then char_of (byte c + 32) else c) s"

definition ToUpper :: "string \<Rightarrow> string" where
  "ToUpper s =
     map (\<lambda>c. if 0x61 \<le> byte c \<and> byte c \<le> 0x7A then char_of (byte c - 32) else c) s"

text \<open>
  \<^verbatim>\<open>strings.Index\<close> together with the two slices taken around the match: the text before
  the first occurrence of \<open>sep\<close> and the text after it.
\<close>

fun cutAt :: "string \<Rightarrow> string \<Rightarrow> (string \<times> string) option" where
  "cutAt sep [] = (if sep = [] then Some ([], []) else None)"
| "cutAt sep (c # cs) =
     (if HasPrefix (c # cs) sep then Some ([], drop (length sep) (c # cs))
      else map_option (\<lambda>(a, b). (c # a, b)) (cutAt sep cs))"

text \<open>\<^verbatim>\<open>strings.explode\<close>, which \<^verbatim>\<open>SplitN\<close> calls for an empty separator: the string cut
  into its runes, an invalid byte being replaced by the encoding of \<open>RuneError\<close>.\<close>

fun explode :: "string \<Rightarrow> nat \<Rightarrow> string list" where
  "explode s 0 = []"
| "explode s (Suc n) =
     (if s = [] then []
      else if n = 0 then [s]
      else
        (case DecodeRuneInString s of
           (ch, w) \<Rightarrow>
             (if ch = RuneError then EncodeRune RuneError else take w s)
               # explode (drop w s) n))"

fun splitLoop :: "string \<Rightarrow> string \<Rightarrow> nat \<Rightarrow> string list" where
  "splitLoop s sep 0 = [s]"
| "splitLoop s sep (Suc n) =
     (case cutAt sep s of
        None \<Rightarrow> [s]
      | Some (a, rest) \<Rightarrow> a # splitLoop rest sep n)"

text \<open>\<^verbatim>\<open>strings.SplitN\<close> for a count \<open>n \<ge> 0\<close>: at most \<open>n\<close> pieces, the last one
  the unsplit remainder.\<close>

definition SplitN :: "string \<Rightarrow> string \<Rightarrow> nat \<Rightarrow> string list" where
  "SplitN s sep n =
     (if n = 0 then []
      else if sep = [] then explode s n
      else splitLoop s sep (n - 1))"

subsection \<open>Package encoding/hex\<close>

definition hextable :: string where
  "hextable = ''0123456789abcdef''"

definition hex_EncodeToString :: "char list \<Rightarrow> string" where
  "hex_EncodeToString src =
     concat (map (\<lambda>v. [hextable ! nat (byte v div 16), hextable ! nat (byte v mod 16)]) src)"

section \<open>Path codec\<close>

text \<open>
  The regular expression \<^verbatim>\<open>^[a-zA-Z0-9-_.~/]+$\<close> of \<^verbatim>\<open>getURLEncodedPath\<close>: the class
  holds the letters, the digits and the five marks (after the range \<^verbatim>\<open>0-9\<close> the
  hyphen stands for itself). The expression matches a string when it has at least one
  rune and every rune is in the class.
\<close>

definition reservedClass :: "rune \<Rightarrow> bool" where
  "reservedClass s =
     (byte CHR ''a'' \<le> s \<and> s \<le> byte CHR ''z'' \<or>
      byte CHR ''A'' \<le> s \<and> s \<le> byte CHR ''Z'' \<or>
      byte CHR ''0'' \<le> s \<and> s \<le> byte CHR ''9'' \<or>
      s = byte CHR ''-'' \<or> s = byte CHR ''_'' \<or> s = byte CHR ''.'' \<or>
      s = byte CHR ''~'' \<or> s = byte CHR ''/'')"

definition reservedNames_MatchString :: "string \<Rightarrow> bool" where
  "reservedNames_MatchString pathName =
     (range_string pathName \<noteq> [] \<and> list_all reservedClass (range_string pathName))"

text \<open>
  The loop of \<^verbatim>\<open>getURLEncodedPath\<close> over the runes still to visit, with the text
  encoded so far. The branch \<^verbatim>\<open>len < 0\<close> leaves the function with the input itself.
\<close>

fun encodeRunes :: "string \<Rightarrow> rune list \<Rightarrow> string \<Rightarrow> string" where
  "encodeRunes pathName [] encodedPathname = encodedPathname"
| "encodeRunes pathName (s # rest) encodedPathname =
     (if byte CHR ''A'' \<le> s \<and> s \<le> byte CHR ''Z'' \<or>
         byte CHR ''a'' \<le> s \<and> s \<le> byte CHR ''z'' \<or>
         byte CHR ''0'' \<le> s \<and> s \<le> byte CHR ''9''
      then encodeRunes pathName rest (encodedPathname @ string_of_rune s)
      else if s = byte CHR ''-'' \<or> s = byte CHR ''_'' \<or> s = byte CHR ''.'' \<or>
              s = byte CHR ''~'' \<or> s = byte CHR ''/''
      then encodeRunes pathName rest (encodedPathname @ string_of_rune s)
      else
        let len = RuneLen s in
        if len < 0 then pathName
        else
          encodeRunes pathName rest
            (foldl (\<lambda>enc r. enc @ ''%'' @ ToUpper (hex_EncodeToString [r]))
               encodedPathname (EncodeRune s)))"

definition getURLEncodedPath :: "string \<Rightarrow> string" where
  "getURLEncodedPath pathName =
     (if reservedNames_MatchString pathName then pathName
      else encodeRunes pathName (range_string pathName) [])"

section \<open>Path parser and URL builder\<close>

text \<open>
  Modelled from the spec: the constant \<^verbatim>\<open>separator\<close> is declared outside
  \<^verbatim>\<open>request.go\<close>; the specification names it the path separator and builds URLs from
  \<open>serverAddress + "/"\<close>.
\<close>

definition separator :: string where
  "separator = ''/''"

text \<open>
  Both calls of \<^verbatim>\<open>SplitN\<close> have a positive count, so the slice \<^verbatim>\<open>pathSplits\<close> is
  never empty and \<^verbatim>\<open>pathSplits[0]\<close> is its head (lemma \<open>SplitN_not_Nil\<close> below). The
  \<^verbatim>\<open>switch\<close> has no default case: for any other length the named results keep their
  zero value, the empty string.
\<close>

definition path2BucketAndObject :: "string \<Rightarrow> string \<times> string" where
  "path2BucketAndObject path =
     (let pathSplits = SplitN path ''?'' 2;
          splits = SplitN (hd pathSplits) separator 3
      in
      if length splits = 0 \<or> length splits = 1 then ([], [])
      else if length splits = 2 then (splits ! 1, [])
      else if length splits = 3 then (splits ! 1, splits ! 2)
      else ([], []))"

definition path2Object :: "string \<Rightarrow> string" where
  "path2Object path = snd (path2BucketAndObject path)"

definition path2Bucket :: "string \<Rightarrow> string" where
  "path2Bucket path = fst (path2BucketAndObject path)"

definition path2Query :: "string \<Rightarrow> string" where
  "path2Query path =
     (let pathSplits = SplitN path ''?'' 2
      in if length pathSplits > 1 then pathSplits ! 1 else [])"

text \<open>The specification's \<open>splitPath\<close> is the three accessors taken together.\<close>

definition splitPath :: "string \<Rightarrow> string \<times> string \<times> string" where
  "splitPath path = (path2Bucket path, path2Object path, path2Query path)"

record operation =
  HTTPServer :: string
  HTTPMethod :: string
  HTTPPath :: string

text \<open>
  Modelled from the spec: the type \<^verbatim>\<open>Config\<close> is declared outside \<^verbatim>\<open>request.go\<close>. The
  fields are those the functions of this file read (the transport, which only \<^verbatim>\<open>Do\<close>
  touches, is left out).
\<close>

record Config =
  AccessKeyID :: string
  SecretAccessKey :: string
  Region :: string
  isVirtualStyle :: bool
  userAgent :: string
  AcceptType :: string

definition getRequestURL :: "operation \<Rightarrow> Config \<Rightarrow> string" where
  "getRequestURL opn config =
     (let url0 = HTTPServer opn @ separator;
          url1 = (if \<not> isVirtualStyle config then url0 @ path2Bucket (HTTPPath opn)
                  else url0);
          objectName = getURLEncodedPath (path2Object (HTTPPath opn));
          queryPath = path2Query (HTTPPath opn)
      in
      if objectName = [] \<and> queryPath \<noteq> [] then url1 @ ''?'' @ queryPath
      else if objectName \<noteq> [] \<and> queryPath = [] then url1 @ separator @ objectName
      else if objectName \<noteq> [] \<and> queryPath \<noteq> [] then
        url1 @ separator @ objectName @ ''?'' @ queryPath
      else url1)"

section \<open>Library functions the signer calls\<close>

subsection \<open>Package net/url\<close>

text \<open>
  \<^verbatim>\<open>url.QueryEscape\<close>: letters, digits and \<^verbatim>\<open>- _ . ~\<close> stay, a space becomes \<^verbatim>\<open>+\<close>,
  every other byte becomes \<^verbatim>\<open>%XX\<close> with upper-case digits.
\<close>

definition upperhex :: string where
  "upperhex = ''0123456789ABCDEF''"

definition asciiLetter :: "char \<Rightarrow> bool" where
  "asciiLetter c = (CHR ''A'' \<le> c \<and> c \<le> CHR ''Z'' \<or> CHR ''a'' \<le> c \<and> c \<le> CHR ''z'')"

definition asciiDigit :: "char \<Rightarrow> bool" where
  "asciiDigit c = (CHR ''0'' \<le> c \<and> c \<le> CHR ''9'')"

definition shouldEscapeQuery :: "char \<Rightarrow> bool" where
  "shouldEscapeQuery c =
     (\<not> (asciiLetter c \<or> asciiDigit c \<or>
         c = CHR ''-'' \<or> c = CHR ''_'' \<or> c = CHR ''.'' \<or> c = CHR ''~''))"

definition QueryEscape :: "string \<Rightarrow> string" where
  "QueryEscape s =
     concat (map (\<lambda>c.
       if shouldEscapeQuery c then
         (if c = CHR '' '' then ''+''
          else [CHR ''%'', upperhex ! nat (byte c div 16), upperhex ! nat (byte c mod 16)])
       else [c]) s)"

definition unhex :: "char \<Rightarrow> int option" where
  "unhex c =
     (if asciiDigit c then Some (byte c - byte CHR ''0'')
      else if CHR ''a'' \<le> c \<and> c \<le> CHR ''f'' then Some (byte c - byte CHR ''a'' + 10)
      else if CHR ''A'' \<le> c \<and> c \<le> CHR ''F'' then Some (byte c - byte CHR ''A'' + 10)
      else None)"

text \<open>
  \<^verbatim>\<open>url.QueryUnescape\<close>: \<^verbatim>\<open>%XX\<close> becomes the byte, \<^verbatim>\<open>+\<close> a space; a \<^verbatim>\<open>%\<close> that is
  not followed by two hexadecimal digits is an error (\<open>None\<close>).
\<close>

fun QueryUnescape :: "string \<Rightarrow> string option" where
  "QueryUnescape [] = Some []"
| "QueryUnescape (c # cs) =
     (if c = CHR ''%'' then
        (case cs of
           h # l # rest \<Rightarrow>
             (case (unhex h, unhex l) of
                (Some a, Some b) \<Rightarrow>
                  map_option ((#) (char_of (a * 16 + b))) (QueryUnescape rest)
              | _ \<Rightarrow> None)
         | _ \<Rightarrow> None)
      else if c = CHR ''+'' then map_option ((#) CHR '' '') (QueryUnescape cs)
      else map_option ((#) c) (QueryUnescape cs))"

text \<open>
  \<^verbatim>\<open>url.Values\<close> is a Go map from a name to the list of its values. It is modelled as
  an association list with distinct keys; \<^verbatim>\<open>m[key] = append(m[key], value)\<close> is
  \<open>Values_Add\<close> and \<^verbatim>\<open>Values.Set\<close> is \<open>Values_Set\<close>.
\<close>

type_synonym Values = "(string \<times> string list) list"

definition Values_Add :: "Values \<Rightarrow> string \<Rightarrow> string \<Rightarrow> Values" where
  "Values_Add m key v =
     AList.update key ((case map_of m key of None \<Rightarrow> [] | Some vs \<Rightarrow> vs) @ [v]) m"

definition Values_Set :: "Values \<Rightarrow> string \<Rightarrow> string \<Rightarrow> Values" where
  "Values_Set m key v = AList.update key [v] m"

text \<open>The pieces of a string between the occurrences of a separator byte.\<close>

fun splitAll :: "char \<Rightarrow> string \<Rightarrow> string list" where
  "splitAll d [] = [[]]"
| "splitAll d (c # cs) =
     (if c = d then [] # splitAll d cs
      else (case splitAll d cs of
              [] \<Rightarrow> [[c]]
            | p # ps \<Rightarrow> (c # p) # ps))"

text \<open>
  One round of the loop of \<^verbatim>\<open>url.ParseQuery\<close> on the text between two \<^verbatim>\<open>&\<close>. A
  piece that holds a semicolon, an empty piece, and a piece whose name or value does not
  unescape are skipped; the errors they raise are the second result of
  \<^verbatim>\<open>url.ParseQuery\<close>, which the signer discards. (This is the library since Go 1.17;
  before, a semicolon separated two pieces as \<^verbatim>\<open>&\<close> does. No statement below is about
  a query with a semicolon.)
\<close>

definition parsePair :: "Values \<Rightarrow> string \<Rightarrow> Values" where
  "parsePair m kv =
     (if Contains kv '';'' then m
      else if kv = [] then m
      else
        let (key, val) = (case cutAt ''='' kv of Some (k, v) \<Rightarrow> (k, v) | None \<Rightarrow> (kv, []))
        in
        case QueryUnescape key of
          None \<Rightarrow> m
        | Some key1 \<Rightarrow>
            (case QueryUnescape val of
               None \<Rightarrow> m
             | Some val1 \<Rightarrow> Values_Add m key1 val1))"

definition ParseQuery :: "string \<Rightarrow> Values" where
  "ParseQuery query = foldl parsePair [] (splitAll CHR ''&'' query)"

text \<open>\<^verbatim>\<open>Values.Encode\<close>: the pairs \<open>name=value\<close>, escaped, sorted by name and joined
  by \<^verbatim>\<open>&\<close>.\<close>

fun encodePairs :: "(string \<times> string) list \<Rightarrow> string \<Rightarrow> string" where
  "encodePairs [] buf = buf"
| "encodePairs ((k, v) # rest) buf =
     encodePairs rest
       ((if length buf > 0 then buf @ ''&'' else buf) @ QueryEscape k @ ''='' @ QueryEscape v)"

definition Values_Encode :: "Values \<Rightarrow> string" where
  "Values_Encode v =
     encodePairs
       (concat (map (\<lambda>k. map (\<lambda>x. (k, x)) (case map_of v k of None \<Rightarrow> [] | Some vs \<Rightarrow> vs))
                  (sort (map fst v))))
       []"

record URL =
  Scheme :: string
  Host :: string
  Path :: string
  RawQuery :: string

subsection \<open>Package net/http\<close>

text \<open>
  \<^verbatim>\<open>http.Header\<close> is a Go map from a header name to the list of its values. It is
  modelled as an association list with distinct keys, in the order in which a
  \<^verbatim>\<open>range\<close> loop visits the map (Go fixes no order, so every order is possible).
\<close>

type_synonym http_Header = "(string \<times> string list) list"

definition validHeaderFieldByte :: "char \<Rightarrow> bool" where
  "validHeaderFieldByte c =
     (asciiLetter c \<or> asciiDigit c \<or> c \<in> set (CHR 0x27 # ''!#$%&*+-.^_`|~''))"

fun canonicalLoop :: "bool \<Rightarrow> string \<Rightarrow> string" where
  "canonicalLoop upper [] = []"
| "canonicalLoop upper (c # cs) =
     (let c1 =
        (if upper \<and> CHR ''a'' \<le> c \<and> c \<le> CHR ''z'' then char_of (byte c - 32)
         else if \<not> upper \<and> CHR ''A'' \<le> c \<and> c \<le> CHR ''Z'' then char_of (byte c + 32)
         else c)
      in c1 # canonicalLoop (c1 = CHR ''-'') cs)"

text \<open>\<^verbatim>\<open>textproto.CanonicalMIMEHeaderKey\<close>: a name made of token bytes gets an upper-case
  letter at its start and after each hyphen and lower-case letters elsewhere; any other
  name is returned as it is.\<close>

definition CanonicalMIMEHeaderKey :: "string \<Rightarrow> string" where
  "CanonicalMIMEHeaderKey s =
     (if list_all validHeaderFieldByte s then canonicalLoop True s else s)"

definition Header_Get :: "http_Header \<Rightarrow> string \<Rightarrow> string" where
  "Header_Get h key =
     (case map_of h (CanonicalMIMEHeaderKey key) of
        None \<Rightarrow> []
      | Some v \<Rightarrow> (if length v = 0 then [] else v ! 0))"

definition Header_Set :: "http_Header \<Rightarrow> string \<Rightarrow> string \<Rightarrow> http_Header" where
  "Header_Set h key v = AList.update (CanonicalMIMEHeaderKey key) [v] h"

record http_Request =
  Method :: string
  URL :: URL
  Header :: http_Header

subsection \<open>Package encoding/base64, package strconv, package time\<close>

definition encodeStd :: string where
  "encodeStd = ''ABCDEFGHIJKLMNOPQRSTUVWXYZabcdefghijklmnopqrstuvwxyz0123456789+/''"

text \<open>\<^verbatim>\<open>base64.StdEncoding.EncodeToString\<close>, three bytes at a time, with padding.\<close>

fun base64_EncodeToString :: "char list \<Rightarrow> string" where
  "base64_EncodeToString [] = []"
| "base64_EncodeToString [a] =
     (let v = byte a * 65536
      in [encodeStd ! nat (v div 262144 mod 64), encodeStd ! nat (v div 4096 mod 64),
          CHR ''='', CHR ''=''])"
| "base64_EncodeToString [a, b] =
     (let v = byte a * 65536 + byte b * 256
      in [encodeStd ! nat (v div 262144 mod 64), encodeStd ! nat (v div 4096 mod 64),
          encodeStd ! nat (v div 64 mod 64), CHR ''=''])"
| "base64_EncodeToString (a # b # c # rest) =
     (let v = byte a * 65536 + byte b * 256 + byte c
      in [encodeStd ! nat (v div 262144 mod 64), encodeStd ! nat (v div 4096 mod 64),
          encodeStd ! nat (v div 64 mod 64), encodeStd ! nat (v mod 64)]
         @ base64_EncodeToString rest)"

declare base64_EncodeToString.simps [simp del]

fun formatNat :: "nat \<Rightarrow> string" where
  "formatNat n =
     (if n < 10 then [char_of (48 + n)]
      else formatNat (n div 10) @ [char_of (48 + n mod 10)])"

declare formatNat.simps [simp del]

text \<open>\<^verbatim>\<open>strconv.FormatInt(i, 10)\<close>, which is also what the verb \<^verbatim>\<open>%d\<close> prints.\<close>

definition FormatInt :: "int \<Rightarrow> string" where
  "FormatInt i = (if i < 0 then ''-'' @ formatNat (nat (- i)) else formatNat (nat i))"

text \<open>
  A reading of the clock, \<^verbatim>\<open>time.Now().UTC()\<close>, by the two observations the signer
  makes of it: \<^verbatim>\<open>Unix()\<close>, a signed 64-bit count of seconds, and
  \<^verbatim>\<open>Format(http.TimeFormat)\<close>.
\<close>

record Time =
  Unix :: "64 word"
  FormatHTTP :: string

datatype error = errorString string

section \<open>Requests\<close>

text \<open>
  The \<^verbatim>\<open>request\<close> of the program. The body is a seekable reader; the signer never
  reads it, and it is kept here as the bytes it would deliver.
\<close>

record request =
  req :: http_Request
  config :: Config
  body :: "string option"
  expires :: "64 word"

definition request_Set :: "request \<Rightarrow> string \<Rightarrow> string \<Rightarrow> request" where
  "request_Set r key v = r\<lparr>req := (req r)\<lparr>Header := Header_Set (Header (req r)) key v\<rparr>\<rparr>"

definition request_Get :: "request \<Rightarrow> string \<Rightarrow> string" where
  "request_Get r key = Header_Get (Header (req r)) key"

section \<open>Canonicalizer\<close>

definition newline :: string where
  "newline = [CHR 0x0A]"

definition writeDefaultHeaders :: "request \<Rightarrow> string \<Rightarrow> string" where
  "writeDefaultHeaders r buf =
     buf @ Method (req r) @ newline
       @ Header_Get (Header (req r)) ''Content-MD5'' @ newline
       @ Header_Get (Header (req r)) ''Content-Type'' @ newline
       @ Header_Get (Header (req r)) ''Date'' @ newline"

text \<open>
  The first loop of \<^verbatim>\<open>writeCanonicalizedAmzHeaders\<close>, over the entries of the header
  map: the lower-cased names that begin with \<^verbatim>\<open>x-amz\<close> are appended to
  \<^verbatim>\<open>amzHeaders\<close>, and \<^verbatim>\<open>vals[lk] = vv\<close> stores the values under the lower-cased name.
\<close>

fun collectAmzHeaders ::
  "http_Header \<Rightarrow> string list \<Rightarrow> (string \<rightharpoonup> string list) \<Rightarrow>
   string list \<times> (string \<rightharpoonup> string list)" where
  "collectAmzHeaders [] amzHeaders vals = (amzHeaders, vals)"
| "collectAmzHeaders ((k, vv) # rest) amzHeaders vals =
     (let lk = ToLower k
      in if HasPrefix lk ''x-amz''
         then collectAmzHeaders rest (amzHeaders @ [lk]) (vals(lk \<mapsto> vv))
         else collectAmzHeaders rest amzHeaders vals)"

text \<open>The loop over the values of one header; both branches of the test for an embedded
  newline write the value as it is.\<close>

fun writeHeaderValues :: "string list \<Rightarrow> nat \<Rightarrow> string \<Rightarrow> string" where
  "writeHeaderValues [] idx buf = buf"
| "writeHeaderValues (v # vs) idx buf =
     (let buf1 = (if idx > 0 then buf @ '','' else buf);
          buf2 = (if Contains v newline then buf1 @ v else buf1 @ v)
      in writeHeaderValues vs (idx + 1) buf2)"

fun writeAmzHeaders :: "(string \<rightharpoonup> string list) \<Rightarrow> string list \<Rightarrow> string \<Rightarrow> string" where
  "writeAmzHeaders vals [] buf = buf"
| "writeAmzHeaders vals (k # ks) buf =
     writeAmzHeaders vals ks
       (writeHeaderValues (case vals k of None \<Rightarrow> [] | Some vv \<Rightarrow> vv) 0 (buf @ k @ '':'')
          @ newline)"

definition writeCanonicalizedAmzHeaders :: "request \<Rightarrow> string \<Rightarrow> string" where
  "writeCanonicalizedAmzHeaders r buf =
     (case collectAmzHeaders (Header (req r)) [] Map.empty of
        (amzHeaders, vals) \<Rightarrow> writeAmzHeaders vals (sort amzHeaders) buf)"

definition resourceList :: "string list" where
  "resourceList =
     [''acl'', ''location'', ''logging'', ''notification'', ''partNumber'', ''policy'',
      ''response-content-type'', ''response-content-language'', ''response-expires'',
      ''response-cache-control'', ''response-content-disposition'',
      ''response-content-encoding'', ''requestPayment'', ''torrent'', ''uploadId'',
      ''uploads'', ''versionId'', ''versioning'', ''versions'', ''website'']"

text \<open>
  The loop of \<^verbatim>\<open>writeCanonicalizedResource\<close> over the supported sub-resources, with the
  counter \<^verbatim>\<open>n\<close> of the parameters written so far.
\<close>

fun writeResources :: "Values \<Rightarrow> string list \<Rightarrow> nat \<Rightarrow> string \<Rightarrow> string" where
  "writeResources vals [] n buf = buf"
| "writeResources vals (resource # rest) n buf =
     (case map_of vals resource of
        Some vv \<Rightarrow>
          if length vv > 0 then
            let n1 = n + 1;
                buf1 = (if n1 = 1 then buf @ ''?'' else buf @ ''&'');
                buf2 = buf1 @ resource;
                buf3 = (if length (vv ! 0) > 0 then buf2 @ ''='' @ QueryEscape (vv ! 0)
                        else buf2)
            in writeResources vals rest n1 buf3
          else writeResources vals rest n buf
      | None \<Rightarrow> writeResources vals rest n buf)"

text \<open>
  The table \<^verbatim>\<open>regions\<close> is declared outside \<^verbatim>\<open>request.go\<close>; it is a parameter here, an
  association list from a host name (the key \<^verbatim>\<open>k\<close>) to a region (the value \<^verbatim>\<open>v\<close>) in
  the order in which the \<^verbatim>\<open>range\<close> loop visits it. The loop leaves at the first entry
  whose value is the configured region.
\<close>

definition writeResourcePath :: "(string \<times> string) list \<Rightarrow> request \<Rightarrow> string \<Rightarrow> string" where
  "writeResourcePath regions r buf =
     (let requestURL = URL (req r)
      in
      if isVirtualStyle (config r) then
        (case find (\<lambda>(k, v). v = Region (config r)) regions of
           Some (k, v) \<Rightarrow>
             buf @ getURLEncodedPath
                     ((''/'' @ TrimSuffix (Host requestURL) (''.'' @ k)) @ Path requestURL)
         | None \<Rightarrow> buf)
      else buf @ getURLEncodedPath (Path requestURL))"

text \<open>
  \<^verbatim>\<open>writeCanonicalizedResource\<close>: the path, then the sub-resources. The call
  \<^verbatim>\<open>sort.Strings(resourceList)\<close> sorts the package's list in place; the loop runs over
  the sorted list. The function's result is always \<^verbatim>\<open>nil\<close>; the model returns the
  buffer.
\<close>

definition writeCanonicalizedResource ::
  "(string \<times> string) list \<Rightarrow> request \<Rightarrow> string \<Rightarrow> string" where
  "writeCanonicalizedResource regions r buf =
     (let requestURL = URL (req r);
          buf1 = writeResourcePath regions r buf
      in
      if RawQuery requestURL \<noteq> [] then
        writeResources (ParseQuery (RawQuery requestURL)) (sort resourceList) 0 buf1
      else buf1)"

definition getStringToSign :: "(string \<times> string) list \<Rightarrow> request \<Rightarrow> string" where
  "getStringToSign regions r =
     writeCanonicalizedResource regions r
       (writeCanonicalizedAmzHeaders r (writeDefaultHeaders r []))"

section \<open>Signer\<close>


definition PreSignV2 ::
  "(string \<Rightarrow> string \<Rightarrow> char list) \<Rightarrow> (URL \<Rightarrow> string) \<Rightarrow> Time \<Rightarrow> request \<Rightarrow>
   (string \<times> error option) \<times> request" where
  "PreSignV2 hmacSHA1 URL_String d r0 =
     (if AccessKeyID (config r0) = [] \<or> SecretAccessKey (config r0) = [] then
        (([], Some (errorString ''presign requires accesskey and secretkey'')), r0)
      else
        let r = (if request_Get r0 ''Date'' = [] then request_Set r0 ''Date'' (FormatHTTP d)
                 else r0);
            epochExpires = Unix d + expires r;
            signText = Method (req r) @ newline @ newline @ newline
                         @ FormatInt (sint epochExpires) @ newline @ Path (URL (req r));
            hm = hmacSHA1 (SecretAccessKey (config r)) signText;
            query0 = ParseQuery (RawQuery (URL (req r)));
            query1 = Values_Set query0 ''AWSAccessKeyId'' (AccessKeyID (config r));
            query2 = Values_Set query1 ''Expires'' (FormatInt (sint epochExpires));
            query3 = Values_Set query2 ''Signature'' (base64_EncodeToString hm);
            r1 = r\<lparr>req := (req r)\<lparr>URL := (URL (req r))\<lparr>RawQuery := Values_Encode query3\<rparr>\<rparr>\<rparr>
        in ((URL_String (URL (req r1)), None), r1))"

definition PostPresignSignature :: "(string \<Rightarrow> string \<Rightarrow> char list) \<Rightarrow> request \<Rightarrow> string \<Rightarrow> string" where
  "PostPresignSignature hmacSHA1 r policyBase64 =
     base64_EncodeToString (hmacSHA1 (SecretAccessKey (config r)) policyBase64)"

section \<open>Notions of the specification\<close>

text \<open>
  The character class of the specification, \<^verbatim>\<open>^[A-Za-z0-9\-_.~/]+$\<close>, read on the
  bytes of the path: the path is not empty and each byte is a letter, a digit or one of
  the five marks.
\<close>

definition unreservedByte :: "char \<Rightarrow> bool" where
  "unreservedByte c =
     (CHR ''A'' \<le> c \<and> c \<le> CHR ''Z'' \<or> CHR ''a'' \<le> c \<and> c \<le> CHR ''z'' \<or>
      CHR ''0'' \<le> c \<and> c \<le> CHR ''9'' \<or>
      c = CHR ''-'' \<or> c = CHR ''_'' \<or> c = CHR ''.'' \<or> c = CHR ''~'' \<or> c = CHR ''/'')"

definition matchesUnreserved :: "string \<Rightarrow> bool" where
  "matchesUnreserved p = (p \<noteq> [] \<and> list_all unreservedByte p)"

text \<open>
  The query suffix of a canonicalized resource as the specification describes it: the
  first parameter after \<^verbatim>\<open>?\<close>, each further one after \<^verbatim>\<open>&\<close>, a parameter being its
  name, followed by \<^verbatim>\<open>=\<close> and the escaped value when the value is not empty.
\<close>

definition renderParam :: "string \<times> string \<Rightarrow> string" where
  "renderParam p = fst p @ (if snd p = [] then [] else ''='' @ QueryEscape (snd p))"

definition tailQuery :: "(string \<times> string) list \<Rightarrow> string" where
  "tailQuery ps = concat (map (\<lambda>q. ''&'' @ renderParam q) ps)"

fun joinQuery :: "(string \<times> string) list \<Rightarrow> string" where
  "joinQuery [] = []"
| "joinQuery (p # ps) = ''?'' @ renderParam p @ tailQuery ps"

text \<open>A name is present in a parsed query when it has at least one value; its first
  value is the one that stands first in the query string.\<close>

definition hasValue :: "Values \<Rightarrow> string \<Rightarrow> bool" where
  "hasValue vals k = (case map_of vals k of Some (v # vs) \<Rightarrow> True | _ \<Rightarrow> False)"

definition firstValue :: "Values \<Rightarrow> string \<Rightarrow> string" where
  "firstValue vals k = (case map_of vals k of Some (v # vs) \<Rightarrow> v | _ \<Rightarrow> [])"

text \<open>The allow-listed names present in a parsed query, in the sorted order of the
  allow-list.\<close>

definition matchedResources :: "Values \<Rightarrow> string list" where
  "matchedResources vals = filter (hasValue vals) (sort resourceList)"

definition withRawQuery :: "request \<Rightarrow> string \<Rightarrow> request" where
  "withRawQuery r q = r\<lparr>req := (req r)\<lparr>URL := (URL (req r))\<lparr>RawQuery := q\<rparr>\<rparr>\<rparr>"

text \<open>The error of \<^verbatim>\<open>PreSignV2\<close> for missing credentials.\<close>

definition missingCredentials :: error where
  "missingCredentials = errorString ''presign requires accesskey and secretkey''"


text \<open>
  \<^verbatim>\<open>utf8.ValidString\<close>: a string is well-formed UTF-8 when decoding it never meets an
  invalid encoding, which the decoder reports as \<open>RuneError\<close> with width 1.
\<close>

fun ValidString :: "string \<Rightarrow> bool" where
  "ValidString [] = True"
| "ValidString (c # cs) =
     (case DecodeRuneInString (c # cs) of
        (r, w) \<Rightarrow> \<not> (r = RuneError \<and> w = 1) \<and> ValidString (drop (w - 1) cs))"


text \<open>
  Percent-decoding, as the specification's round-trip law uses it: \<^verbatim>\<open>%XX\<close> stands for
  the byte with the hexadecimal value \<open>XX\<close>, every other byte for itself; a \<^verbatim>\<open>%\<close>
  without two hexadecimal digits after it cannot be decoded.
\<close>

fun percentDecode :: "string \<Rightarrow> string option" where
  "percentDecode [] = Some []"
| "percentDecode (c # cs) =
     (if c = CHR ''%'' then
        (case cs of
           h # l # rest \<Rightarrow>
             (case (unhex h, unhex l) of
                (Some a, Some b) \<Rightarrow>
                  map_option ((#) (char_of (a * 16 + b))) (percentDecode rest)
              | _ \<Rightarrow> None)
         | _ \<Rightarrow> None)
      else map_option ((#) c) (percentDecode cs))"

text \<open>The text the path encoder produces for one byte that it escapes, and for one
  rune.\<close>

definition pct :: "char \<Rightarrow> string" where
  "pct b = ''%'' @ ToUpper (hex_EncodeToString [b])"

definition encodeOne :: "rune \<Rightarrow> string" where
  "encodeOne r = (if reservedClass r then string_of_rune r else concat (map pct (EncodeRune r)))"








section \<open>Properties of the path parser and the URL builder\<close>

lemma splitLoop_not_Nil: "splitLoop s sep n \<noteq> []"
  by (cases n) (auto split: option.splits)

lemma SplitN_not_Nil: "sep \<noteq> [] \<Longrightarrow> 0 < n \<Longrightarrow> SplitN s sep n \<noteq> []"
  by (simp add: SplitN_def splitLoop_not_Nil)

lemma numeral_2_Suc: "(2::nat) = Suc (Suc 0)"
  by simp

lemma numeral_3_Suc: "(3::nat) = Suc (Suc (Suc 0))"
  by simp

lemmas path_defs =
  splitPath_def path2Bucket_def path2Object_def path2Query_def path2BucketAndObject_def
  SplitN_def separator_def HasPrefix_def numeral_2_Suc numeral_3_Suc

text \<open>
  C3, as the code behaves. The parser takes the bucket from the second component of the
  split, so it expects the path to begin with the separator: \<open>/bucket/obj?x=1\<close> gives
  bucket \<open>bucket\<close>, object \<open>obj\<close> and query \<open>x=1\<close>, \<open>/bucket\<close> gives bucket
  \<open>bucket\<close> alone, and the empty path gives three empty strings. Without the leading
  separator the first component is dropped: \<open>bucket/obj?x=1\<close> gives bucket \<open>obj\<close>
  and no object, and \<open>bucket\<close> gives no bucket at all.
\<close>

theorem splitPath_examples:
  "splitPath ''/bucket/obj?x=1'' = (''bucket'', ''obj'', ''x=1'') \<and>
   splitPath ''/bucket'' = (''bucket'', '''', '''') \<and>
   splitPath '''' = ('''', '''', '''') \<and>
   splitPath ''bucket/obj?x=1'' = (''obj'', '''', ''x=1'') \<and>
   splitPath ''bucket'' = ('''', '''', '''')"
  by (simp add: path_defs)

text \<open>
  C3 as the specification states it fails on its first equation: for the path
  \<open>bucket/obj?x=1\<close> the parser does not return bucket \<open>bucket\<close> and object \<open>obj\<close>.
\<close>

theorem splitPath_no_leading_separator:
  "splitPath ''bucket/obj?x=1'' \<noteq> (''bucket'', ''obj'', ''x=1'')"
  by (simp add: path_defs)

subsection \<open>Bytes and the character class\<close>

lemma byte_int: "byte c = int (of_char c)"
  by (simp add: byte_def of_nat_of_char)

lemma byte_bounds: "0 \<le> byte c" "byte c < 256"
  by (simp_all add: byte_int)

lemma char_le_byte: "c \<le> d \<longleftrightarrow> byte c \<le> byte d"
  by (simp add: byte_int less_eq_char_def)

lemma char_eq_byte: "c = d \<longleftrightarrow> byte c = byte d"
  by (simp add: byte_def)

lemma char_of_byte: "char_of (byte c) = c"
  by (simp add: byte_def)

lemma DecodeRune_ascii: "byte c < 0x80 \<Longrightarrow> DecodeRuneInString (c # cs) = (byte c, 1)"
  by (simp add: DecodeRuneInString_def)

lemma unreservedByte_class: "unreservedByte c \<longleftrightarrow> reservedClass (byte c)"
  unfolding unreservedByte_def reservedClass_def char_le_byte
  by (auto simp: char_eq_byte)

lemma reservedClass_ascii: "reservedClass r \<Longrightarrow> 0 \<le> r \<and> r < 0x80"
  by (auto simp: reservedClass_def byte_def)

lemma unreservedByte_ascii: "unreservedByte c \<Longrightarrow> byte c < 0x80"
  using reservedClass_ascii [of "byte c"] by (simp add: unreservedByte_class)

lemma range_string_unreserved:
  "list_all unreservedByte p \<Longrightarrow> range_string p = map byte p"
proof (induction p)
  case Nil
  then show ?case by simp
next
  case (Cons c cs)
  then have "byte c < 0x80"
    by (simp add: unreservedByte_ascii)
  with Cons show ?case by (simp add: DecodeRune_ascii)
qed

lemma matchesUnreserved_MatchString:
  "matchesUnreserved p \<Longrightarrow> reservedNames_MatchString p"
  by (auto simp: matchesUnreserved_def reservedNames_MatchString_def
      range_string_unreserved list_all_iff unreservedByte_class)

text \<open>
  C5. A path that matches the specification's character class
  \<^verbatim>\<open>^[A-Za-z0-9\-_.~/]+$\<close> (it is not empty and each of its bytes is a letter, a
  digit or one of \<^verbatim>\<open>- _ . ~ /\<close>) is returned unchanged by the path encoder.
\<close>

theorem getURLEncodedPath_unreserved:
  "matchesUnreserved p \<Longrightarrow> getURLEncodedPath p = p"
  by (simp add: getURLEncodedPath_def matchesUnreserved_MatchString)

theorem getURLEncodedPath_unreserved_witness:
  "matchesUnreserved ''my-bucket/a_b.c~0Z'' \<and>
   getURLEncodedPath ''my-bucket/a_b.c~0Z'' = ''my-bucket/a_b.c~0Z''"
proof -
  have h: "matchesUnreserved ''my-bucket/a_b.c~0Z''"
    by (simp add: matchesUnreserved_def unreservedByte_def less_eq_char_def)
  show ?thesis using h getURLEncodedPath_unreserved [OF h] by simp
qed

subsection \<open>The URL builder on the specification's example\<close>

lemmas encode_defs =
  getURLEncodedPath_def reservedNames_MatchString_def DecodeRune_ascii byte_def
  reservedClass_def RuneLen_def EncodeRune_def string_of_rune_def ToUpper_def
  hex_EncodeToString_def hextable_def char_of_eq_iff

lemma path2Bucket_example: "path2Bucket ''/mybucket/my object.txt'' = ''mybucket''"
  by (simp add: path_defs)

lemma path2Object_example: "path2Object ''/mybucket/my object.txt'' = ''my object.txt''"
  by (simp add: path_defs)

lemma path2Query_example: "path2Query ''/mybucket/my object.txt'' = ''''"
  by (simp add: path_defs)

lemma getURLEncodedPath_space: "getURLEncodedPath ''my object.txt'' = ''my%20object.txt''"
  by (simp add: encode_defs)

lemma getURLEncodedPath_Nil: "getURLEncodedPath [] = []"
  by (simp add: getURLEncodedPath_def reservedNames_MatchString_def)

text \<open>
  C4, as the code behaves. With virtual-style addressing off, server address
  \<open>http://s3.example.com\<close> and raw path \<open>/mybucket/my object.txt\<close> (with its
  leading separator), the URL builder produces
  \<open>http://s3.example.com/mybucket/my%20object.txt\<close>: the bucket is appended as it is
  and the space of the object name is escaped by the path encoder as \<open>%20\<close>.
\<close>

theorem getRequestURL_path_style:
  assumes "\<not> isVirtualStyle cfg"
    and "HTTPServer opn = ''http://s3.example.com''"
    and "HTTPPath opn = ''/mybucket/my object.txt''"
  shows "getRequestURL opn cfg = ''http://s3.example.com/mybucket/my%20object.txt''"
  using assms
  by (simp add: getRequestURL_def path2Bucket_example path2Object_example
      path2Query_example getURLEncodedPath_space separator_def)

theorem getRequestURL_path_style_witness:
  "getRequestURL
     \<lparr>HTTPServer = ''http://s3.example.com'', HTTPMethod = ''GET'',
      HTTPPath = ''/mybucket/my object.txt''\<rparr>
     \<lparr>AccessKeyID = ''AK'', SecretAccessKey = ''SK'', Region = ''us-east-1'',
      isVirtualStyle = False, userAgent = ''minio-go'', AcceptType = ''''\<rparr>
   = ''http://s3.example.com/mybucket/my%20object.txt''"
  by (rule getRequestURL_path_style) simp_all

text \<open>
  C4 as the specification states it fails: for the raw path \<open>mybucket/my object.txt\<close>
  (no leading separator) the parser takes \<open>my object.txt\<close> for the bucket and finds no
  object, so the builder appends it unencoded and the bucket \<open>mybucket\<close> is lost.
\<close>

theorem getRequestURL_no_leading_separator:
  "getRequestURL
     \<lparr>HTTPServer = ''http://s3.example.com'', HTTPMethod = ''GET'',
      HTTPPath = ''mybucket/my object.txt''\<rparr>
     \<lparr>AccessKeyID = ''AK'', SecretAccessKey = ''SK'', Region = ''us-east-1'',
      isVirtualStyle = False, userAgent = ''minio-go'', AcceptType = ''''\<rparr>
   = ''http://s3.example.com/my object.txt'' \<and>
   getRequestURL
     \<lparr>HTTPServer = ''http://s3.example.com'', HTTPMethod = ''GET'',
      HTTPPath = ''mybucket/my object.txt''\<rparr>
     \<lparr>AccessKeyID = ''AK'', SecretAccessKey = ''SK'', Region = ''us-east-1'',
      isVirtualStyle = False, userAgent = ''minio-go'', AcceptType = ''''\<rparr>
   \<noteq> ''http://s3.example.com/mybucket/my%20object.txt''"
  by (simp add: getRequestURL_def path_defs getURLEncodedPath_Nil)

section \<open>Properties of the canonicalized resource\<close>

lemma writeResources_tail:
  "0 < n \<Longrightarrow> writeResources vals rs n buf =
     buf @ tailQuery (map (\<lambda>k. (k, firstValue vals k)) (filter (hasValue vals) rs))"
proof (induction rs arbitrary: n buf)
  case Nil
  then show ?case by (simp add: tailQuery_def)
next
  case (Cons k rs)
  note IH = Cons.IH and pos = Cons.prems
  show ?case
  proof (cases "map_of vals k")
    case None
    with IH pos show ?thesis by (simp add: hasValue_def)
  next
    case (Some vv)
    show ?thesis
    proof (cases vv)
      case Nil
      with Some IH pos show ?thesis by (simp add: hasValue_def)
    next
      case (Cons v vs)
      with Some have hv: "hasValue vals k" and fv: "firstValue vals k = v"
        by (simp_all add: hasValue_def firstValue_def)
      from Some Cons hv fv pos IH [of "Suc n"] show ?thesis
        by (simp add: tailQuery_def renderParam_def Let_def)
    qed
  qed
qed

lemma writeResources_join:
  "writeResources vals rs 0 buf =
     buf @ joinQuery (map (\<lambda>k. (k, firstValue vals k)) (filter (hasValue vals) rs))"
proof (induction rs)
  case Nil
  then show ?case by simp
next
  case (Cons k rs)
  note IH = Cons.IH
  show ?case
  proof (cases "map_of vals k")
    case None
    with IH show ?thesis by (simp add: hasValue_def)
  next
    case (Some vv)
    show ?thesis
    proof (cases vv)
      case Nil
      with Some IH show ?thesis by (simp add: hasValue_def)
    next
      case (Cons v vs)
      with Some have hv: "hasValue vals k" and fv: "firstValue vals k = v"
        by (simp_all add: hasValue_def firstValue_def)
      from Some Cons hv fv writeResources_tail [of "Suc 0" vals rs] show ?thesis
        by (simp add: renderParam_def Let_def)
    qed
  qed
qed

lemma sort_resourceList:
  "sort resourceList =
     [''acl'', ''location'', ''logging'', ''notification'', ''partNumber'', ''policy'',
      ''requestPayment'', ''response-cache-control'', ''response-content-disposition'',
      ''response-content-encoding'', ''response-content-language'',
      ''response-content-type'', ''response-expires'', ''torrent'', ''uploadId'',
      ''uploads'', ''versionId'', ''versioning'', ''versions'', ''website'']"
  by code_simp

lemma distinct_resourceList: "distinct resourceList"
  by (simp add: resourceList_def)

lemma ParseQuery_ex1: "ParseQuery ''uploads&acl'' = [(''uploads'', ['''']), (''acl'', [''''])]"
  by code_simp

lemma ParseQuery_ex2: "ParseQuery ''versionId=1&foo=bar&versionId=2'' = [(''versionId'', [''1'', ''2'']), (''foo'', [''bar''])]"
  by code_simp

lemma writeResourcePath_withRawQuery:
  "writeResourcePath regions (withRawQuery r q) buf = writeResourcePath regions r buf"
  by (simp add: writeResourcePath_def withRawQuery_def Let_def split: option.split)

lemma writeCanonicalizedResource_eq:
  "writeCanonicalizedResource regions r buf =
     writeResourcePath regions r buf
       @ joinQuery (map (\<lambda>k. (k, firstValue (ParseQuery (RawQuery (URL (req r)))) k))
                     (matchedResources (ParseQuery (RawQuery (URL (req r))))))"
proof (cases "RawQuery (URL (req r)) = []")
  case True
  have "ParseQuery [] = []" by (simp add: ParseQuery_def parsePair_def)
  with True show ?thesis
    by (simp add: writeCanonicalizedResource_def matchedResources_def hasValue_def)
next
  case False
  then show ?thesis
    by (simp add: writeCanonicalizedResource_def matchedResources_def writeResources_join Let_def)
qed

lemma matchedResources_set:
  "set (matchedResources vals) = set resourceList \<inter> {k. hasValue vals k}"
  by (auto simp: matchedResources_def)

lemma matchedResources_sorted: "sorted (matchedResources vals)"
  by (simp add: matchedResources_def sorted_wrt_filter)

lemma matchedResources_distinct: "distinct (matchedResources vals)"
  by (simp add: matchedResources_def distinct_resourceList)

lemma canonical_uploads_acl:
  "writeCanonicalizedResource regions (withRawQuery r ''uploads&acl'') buf =
     writeResourcePath regions r buf @ ''?acl&uploads''"
  unfolding writeCanonicalizedResource_eq writeResourcePath_withRawQuery
  by (simp add: withRawQuery_def ParseQuery_ex1 matchedResources_def sort_resourceList
      hasValue_def firstValue_def renderParam_def tailQuery_def)

lemma canonical_repeated:
  "writeCanonicalizedResource regions (withRawQuery r ''versionId=1&foo=bar&versionId=2'') buf =
     writeResourcePath regions r buf @ ''?versionId=1''"
  unfolding writeCanonicalizedResource_eq writeResourcePath_withRawQuery
  by (simp add: withRawQuery_def ParseQuery_ex2 matchedResources_def sort_resourceList
      hasValue_def firstValue_def renderParam_def tailQuery_def QueryEscape_def
      shouldEscapeQuery_def asciiLetter_def asciiDigit_def less_eq_char_def)

text \<open>
  C1. For every request, the canonicalized resource is the path portion followed by the
  query suffix built from the names \<open>matchedResources\<close> of the parsed query: these are
  exactly the names of the allow-list that have a value in the query, they stand in
  ascending bytewise order without repetition whatever their order in the request, and
  each is written with the first of its values only. In particular the query
  \<open>uploads&acl\<close> gives the suffix \<open>?acl&uploads\<close>, and the query
  \<open>versionId=1&foo=bar&versionId=2\<close> gives \<open>?versionId=1\<close>.
\<close>

theorem canonicalized_resource_query:
  "writeCanonicalizedResource regions r buf =
     writeResourcePath regions r buf
       @ joinQuery (map (\<lambda>k. (k, firstValue (ParseQuery (RawQuery (URL (req r)))) k))
                     (matchedResources (ParseQuery (RawQuery (URL (req r)))))) \<and>
   set (matchedResources (ParseQuery (RawQuery (URL (req r))))) =
     set resourceList \<inter> {k. hasValue (ParseQuery (RawQuery (URL (req r)))) k} \<and>
   sorted (matchedResources (ParseQuery (RawQuery (URL (req r))))) \<and>
   distinct (matchedResources (ParseQuery (RawQuery (URL (req r))))) \<and>
   writeCanonicalizedResource regions (withRawQuery r ''uploads&acl'') buf =
     writeResourcePath regions r buf @ ''?acl&uploads'' \<and>
   writeCanonicalizedResource regions (withRawQuery r ''versionId=1&foo=bar&versionId=2'') buf =
     writeResourcePath regions r buf @ ''?versionId=1''"
  using writeCanonicalizedResource_eq [of regions r buf]
    matchedResources_set [of "ParseQuery (RawQuery (URL (req r)))"]
    matchedResources_sorted [of "ParseQuery (RawQuery (URL (req r)))"]
    matchedResources_distinct [of "ParseQuery (RawQuery (URL (req r)))"]
    canonical_uploads_acl [of regions r buf] canonical_repeated [of regions r buf]
  by blast

subsection \<open>Virtual-style addressing with a region the table does not know\<close>

lemma find_region_None:
  "region \<notin> snd ` set regions \<Longrightarrow> find (\<lambda>(k, v). v = region) regions = None"
  by (induction regions) auto

text \<open>
  C10. With virtual-hosted-style addressing on, when no entry of the table \<open>regions\<close>
  has the configured region as its value, the loop over the table writes nothing: the
  canonicalized resource holds no path at all, only the sub-resources of the query (and
  nothing when the query is empty), and the string to sign ends right after the
  metadata headers with that query suffix.
\<close>

theorem virtual_style_unknown_region:
  assumes "isVirtualStyle (config r)"
    and "Region (config r) \<notin> snd ` set regions"
  shows "writeResourcePath regions r buf = buf \<and>
         writeCanonicalizedResource regions r buf =
           (if RawQuery (URL (req r)) = [] then buf
            else writeResources (ParseQuery (RawQuery (URL (req r)))) (sort resourceList) 0 buf) \<and>
         getStringToSign regions r =
           (if RawQuery (URL (req r)) = []
            then writeCanonicalizedAmzHeaders r (writeDefaultHeaders r [])
            else writeResources (ParseQuery (RawQuery (URL (req r)))) (sort resourceList) 0
                   (writeCanonicalizedAmzHeaders r (writeDefaultHeaders r [])))"
proof -
  have p: "writeResourcePath regions r b = b" for b
    using assms by (simp add: writeResourcePath_def find_region_None)
  then show ?thesis
    by (simp add: writeCanonicalizedResource_def getStringToSign_def Let_def)
qed

theorem virtual_style_unknown_region_witness:
  "getStringToSign [(''s3.amazonaws.com'', ''us-east-1'')]
     \<lparr>req = \<lparr>Method = ''GET'',
             URL = \<lparr>Scheme = ''https'', Host = ''mybucket.s3.example.org'',
                    Path = ''/mykey'', RawQuery = ''acl''\<rparr>,
             Header = [(''Date'', [''Tue, 27 Mar 2007 19:36:42 +0000''])]\<rparr>,
      config = \<lparr>AccessKeyID = ''AK'', SecretAccessKey = ''SK'', Region = ''mars-1'',
                isVirtualStyle = True, userAgent = ''minio-go'', AcceptType = ''''\<rparr>,
      body = None, expires = 0\<rparr>
   = ''GET'' @ newline @ newline @ newline @ ''Tue, 27 Mar 2007 19:36:42 +0000'' @ newline
       @ ''?acl''"
  (is "getStringToSign ?regs ?r = ?out")
proof -
  have h1: "isVirtualStyle (config ?r)" by simp
  have h2: "Region (config ?r) \<notin> snd ` set ?regs" by simp
  have e: "(if RawQuery (URL (req ?r)) = []
            then writeCanonicalizedAmzHeaders ?r (writeDefaultHeaders ?r [])
            else writeResources (ParseQuery (RawQuery (URL (req ?r)))) (sort resourceList) 0
                   (writeCanonicalizedAmzHeaders ?r (writeDefaultHeaders ?r []))) = ?out"
    by code_simp
  from virtual_style_unknown_region [OF h1 h2, of "[]"] e show ?thesis
    by (simp only:)
qed

section \<open>Properties of the canonicalized metadata headers\<close>

lemma collision_run1:
  "(case collectAmzHeaders [(''X-Amz-Meta-A'', [''1'']), (''x-amz-meta-a'', [''2''])] []
           Map.empty of
      (amzHeaders, vals) \<Rightarrow> writeAmzHeaders vals (sort amzHeaders) [])
   = ''x-amz-meta-a:2'' @ newline @ ''x-amz-meta-a:2'' @ newline"
  by code_simp

lemma collision_run2:
  "(case collectAmzHeaders [(''x-amz-meta-a'', [''2'']), (''X-Amz-Meta-A'', [''1''])] []
           Map.empty of
      (amzHeaders, vals) \<Rightarrow> writeAmzHeaders vals (sort amzHeaders) [])
   = ''x-amz-meta-a:1'' @ newline @ ''x-amz-meta-a:1'' @ newline"
  by code_simp

text \<open>
  C2 does not hold of the code for two headers whose names differ only in casing. The
  header map with the two keys \<open>X-Amz-Meta-A\<close> (value \<open>1\<close>) and \<open>x-amz-meta-a\<close>
  (value \<open>2\<close>) is not merged into one entry: the lower-cased name is appended to the
  list of names once for each key, while the values are stored under the lower-cased
  name, so the section holds the line for \<open>x-amz-meta-a\<close> twice, both times with the
  values of the key that the loop over the map visited last.
\<close>

theorem amz_headers_case_collision:
  "writeCanonicalizedAmzHeaders
     (r\<lparr>req := (req r)\<lparr>Header := [(''X-Amz-Meta-A'', [''1'']), (''x-amz-meta-a'', [''2''])]\<rparr>\<rparr>) []
   = ''x-amz-meta-a:2'' @ newline @ ''x-amz-meta-a:2'' @ newline \<and>
   writeCanonicalizedAmzHeaders
     (r\<lparr>req := (req r)\<lparr>Header := [(''x-amz-meta-a'', [''2'']), (''X-Amz-Meta-A'', [''1''])]\<rparr>\<rparr>) []
   = ''x-amz-meta-a:1'' @ newline @ ''x-amz-meta-a:1'' @ newline"
  using collision_run1 collision_run2
  by (simp add: writeCanonicalizedAmzHeaders_def del: collectAmzHeaders.simps)

text \<open>
  Such a header map also arises from the request's own \<^verbatim>\<open>Set\<close>: the library keeps a
  name that is not made of token bytes as it is (here a name with a space), so two
  calls with names that differ in casing store two keys.
\<close>

lemma amz_headers_collision_by_Set:
  "Header (req (request_Set (request_Set (r\<lparr>req := (req r)\<lparr>Header := []\<rparr>\<rparr>)
       ''x-amz meta'' ''1'') ''X-Amz Meta'' ''2''))
     = [(''x-amz meta'', [''1'']), (''X-Amz Meta'', [''2''])] \<and>
   writeCanonicalizedAmzHeaders
     (request_Set (request_Set (r\<lparr>req := (req r)\<lparr>Header := []\<rparr>\<rparr>)
        ''x-amz meta'' ''1'') ''X-Amz Meta'' ''2'') []
     = ''x-amz meta:2'' @ newline @ ''x-amz meta:2'' @ newline"
proof -
  have k: "CanonicalMIMEHeaderKey ''x-amz meta'' = ''x-amz meta''"
    "CanonicalMIMEHeaderKey ''X-Amz Meta'' = ''X-Amz Meta''"
    by code_simp+
  have h: "Header (req (request_Set (request_Set (r\<lparr>req := (req r)\<lparr>Header := []\<rparr>\<rparr>)
       ''x-amz meta'' ''1'') ''X-Amz Meta'' ''2''))
     = [(''x-amz meta'', [''1'']), (''X-Amz Meta'', [''2''])]"
    by (simp add: request_Set_def Header_Set_def k)
  have w: "(case collectAmzHeaders [(''x-amz meta'', [''1'']), (''X-Amz Meta'', [''2''])] []
           Map.empty of
      (amzHeaders, vals) \<Rightarrow> writeAmzHeaders vals (sort amzHeaders) [])
     = ''x-amz meta:2'' @ newline @ ''x-amz meta:2'' @ newline"
    by code_simp
  show ?thesis
    using w by (simp add: writeCanonicalizedAmzHeaders_def h del: collectAmzHeaders.simps)
qed

section \<open>Properties of the pre-signed URL\<close>

text \<open>
  C7. \<^verbatim>\<open>PreSignV2\<close> returns the missing-credentials error exactly when the access key
  ID or the secret access key is empty, and returns no error exactly when both are
  present. When it fails the URL returned is the empty string and the request is left
  as it was. The witness is a request with an access key and an empty secret key.
\<close>

theorem PreSignV2_missing_credentials:
  "(snd (fst (PreSignV2 hmacSHA1 URL_String d r)) = Some missingCredentials) =
     (AccessKeyID (config r) = [] \<or> SecretAccessKey (config r) = []) \<and>
   (snd (fst (PreSignV2 hmacSHA1 URL_String d r)) = None) =
     (AccessKeyID (config r) \<noteq> [] \<and> SecretAccessKey (config r) \<noteq> []) \<and>
   (AccessKeyID (config r) = [] \<or> SecretAccessKey (config r) = [] \<longrightarrow>
      fst (fst (PreSignV2 hmacSHA1 URL_String d r)) = [] \<and>
      snd (PreSignV2 hmacSHA1 URL_String d r) = r)"
  by (simp add: PreSignV2_def missingCredentials_def Let_def)

theorem PreSignV2_missing_credentials_witness:
  "PreSignV2 (\<lambda>key text. ''01234567890123456789'')
     (\<lambda>u. Scheme u @ ''://'' @ Host u @ Path u @ ''?'' @ RawQuery u)
     \<lparr>Unix = 1175024202, FormatHTTP = ''Tue, 27 Mar 2007 19:36:42 GMT''\<rparr>
     \<lparr>req = \<lparr>Method = ''GET'',
             URL = \<lparr>Scheme = ''http'', Host = ''s3.example.com'',
                    Path = ''/mybucket/mykey'', RawQuery = ''''\<rparr>,
             Header = []\<rparr>,
      config = \<lparr>AccessKeyID = ''AK'', SecretAccessKey = '''', Region = ''us-east-1'',
                isVirtualStyle = False, userAgent = ''minio-go'', AcceptType = ''''\<rparr>,
      body = None, expires = 60\<rparr>
   = (('''', Some missingCredentials),
      \<lparr>req = \<lparr>Method = ''GET'',
             URL = \<lparr>Scheme = ''http'', Host = ''s3.example.com'',
                    Path = ''/mybucket/mykey'', RawQuery = ''''\<rparr>,
             Header = []\<rparr>,
      config = \<lparr>AccessKeyID = ''AK'', SecretAccessKey = '''', Region = ''us-east-1'',
                isVirtualStyle = False, userAgent = ''minio-go'', AcceptType = ''''\<rparr>,
      body = None, expires = 60\<rparr>)"
  (is "PreSignV2 ?h ?us ?d ?r = _")
proof -
  have c: "AccessKeyID (config ?r) = [] \<or> SecretAccessKey (config ?r) = []" by simp
  from PreSignV2_missing_credentials [of ?h ?us ?d ?r] c
  have "snd (fst (PreSignV2 ?h ?us ?d ?r)) = Some missingCredentials"
    and "fst (fst (PreSignV2 ?h ?us ?d ?r)) = []"
    and "snd (PreSignV2 ?h ?us ?d ?r) = ?r"
    by blast+
  then show ?thesis by (simp add: prod_eq_iff)
qed

subsection \<open>The query of a pre-signed URL\<close>















section \<open>The round trip of the path encoder\<close>

subsection \<open>Decoding one rune\<close>

lemma D1: "s \<noteq> [] \<Longrightarrow> byte (s ! 0) < 0x80 \<Longrightarrow> DecodeRuneInString s = (byte (s ! 0), 1)"
  by (cases s) (simp_all add: DecodeRuneInString_def)

lemma Dbad: "s \<noteq> [] \<Longrightarrow> 0x80 \<le> byte (s ! 0) \<Longrightarrow> byte (s ! 0) < 0xC2 \<or> 0xF4 < byte (s ! 0) \<Longrightarrow>
   DecodeRuneInString s = (RuneError, 1)"
  by (cases s) (auto simp add: DecodeRuneInString_def)

lemma D2: "s \<noteq> [] \<Longrightarrow> 0xC2 \<le> byte (s ! 0) \<Longrightarrow> byte (s ! 0) < 0xE0 \<Longrightarrow>
   DecodeRuneInString s =
     (if length s < 2 \<or> byte (s ! 1) < 0x80 \<or> 0xBF < byte (s ! 1) then (RuneError, 1)
      else ((byte (s ! 0) mod 32) * 64 + byte (s ! 1) mod 64, 2))"
  by (cases s) (auto simp add: DecodeRuneInString_def Let_def)

lemma D3: "s \<noteq> [] \<Longrightarrow> 0xE0 \<le> byte (s ! 0) \<Longrightarrow> byte (s ! 0) < 0xF0 \<Longrightarrow>
   DecodeRuneInString s =
     (if length s < 3 \<or> byte (s ! 1) < (if byte (s ! 0) = 0xE0 then 0xA0 else 0x80)
          \<or> (if byte (s ! 0) = 0xED then 0x9F else 0xBF) < byte (s ! 1)
          \<or> byte (s ! 2) < 0x80 \<or> 0xBF < byte (s ! 2) then (RuneError, 1)
      else ((byte (s ! 0) mod 16) * 4096 + (byte (s ! 1) mod 64) * 64 + byte (s ! 2) mod 64, 3))"
  by (cases s) (auto simp add: DecodeRuneInString_def Let_def)

lemma D4: "s \<noteq> [] \<Longrightarrow> 0xF0 \<le> byte (s ! 0) \<Longrightarrow> byte (s ! 0) \<le> 0xF4 \<Longrightarrow>
   DecodeRuneInString s =
     (if length s < 4 \<or> byte (s ! 1) < (if byte (s ! 0) = 0xF0 then 0x90 else 0x80)
          \<or> (if byte (s ! 0) = 0xF4 then 0x8F else 0xBF) < byte (s ! 1)
          \<or> byte (s ! 2) < 0x80 \<or> 0xBF < byte (s ! 2)
          \<or> byte (s ! 3) < 0x80 \<or> 0xBF < byte (s ! 3) then (RuneError, 1)
      else ((byte (s ! 0) mod 8) * 262144 + (byte (s ! 1) mod 64) * 4096
              + (byte (s ! 2) mod 64) * 64 + byte (s ! 3) mod 64, 4))"
  by (cases s) (auto simp add: DecodeRuneInString_def Let_def)

subsection \<open>Arithmetic of the encodings of two, three and four bytes\<close>

lemma dm:
  fixes q z m :: int
  assumes "0 \<le> z" "z < m"
  shows "(q * m + z) div m = q" "(q * m + z) mod m = z"
proof -
  have m: "m \<noteq> 0" using assms by auto
  have "(q * m + z) div m = q + z div m" using m by (rule div_mult_self3)
  then show "(q * m + z) div m = q" using assms by (simp add: div_pos_pos_trivial)
  show "(q * m + z) mod m = z" using assms by (simp add: mod_pos_pos_trivial)
qed

lemma E2:
  fixes a b :: int
  assumes "0xC2 \<le> a" "a < 0xE0" "0x80 \<le> b" "b \<le> 0xBF"
  defines "r \<equiv> (a mod 32) * 64 + b mod 64"
  shows "0x80 \<le> r" "r \<le> 0x7FF" "0xC0 + r div 64 = a" "0x80 + r mod 64 = b"
proof -
  define x where "x = a - 0xC0"
  define y where "y = b - 0x80"
  have x: "2 \<le> x" "x < 32" and y: "0 \<le> y" "y < 64"
    using assms(1-4) by (simp_all add: x_def y_def)
  have "a = 6 * 32 + x" by (simp add: x_def)
  then have am: "a mod 32 = x" using x dm(2) [of x 32 6] by simp
  have "b = 2 * 64 + y" by (simp add: y_def)
  then have bm: "b mod 64 = y" using y dm(2) [of y 64 2] by simp
  have r: "r = x * 64 + y" by (simp add: r_def am bm)
  show "0x80 \<le> r" "r \<le> 0x7FF" using x y by (simp_all add: r)
  show "0xC0 + r div 64 = a" using dm(1) [OF y, of x] by (simp add: r x_def)
  show "0x80 + r mod 64 = b" using dm(2) [OF y, of x] by (simp add: r y_def)
qed

lemma E3:
  fixes a b c :: int
  assumes "0xE0 \<le> a" "a < 0xF0" 
    "(if a = 0xE0 then 0xA0 else 0x80) \<le> b" "b \<le> (if a = 0xED then 0x9F else 0xBF)"
    "0x80 \<le> c" "c \<le> 0xBF"
  defines "r \<equiv> (a mod 16) * 4096 + (b mod 64) * 64 + c mod 64"
  shows "0x800 \<le> r" "r \<le> 0xFFFF" "\<not> (0xD800 \<le> r \<and> r \<le> 0xDFFF)"
    "0xE0 + r div 4096 = a" "0x80 + (r div 64) mod 64 = b" "0x80 + r mod 64 = c"
proof -
  define x where "x = a - 0xE0"
  define y where "y = b - 0x80"
  define z where "z = c - 0x80"
  have x: "0 \<le> x" "x < 16" and z: "0 \<le> z" "z < 64"
    using assms(1,2,5,6) by (simp_all add: x_def z_def)
  have y: "0 \<le> y" "y < 64" using assms(3,4) by (simp_all add: y_def split: if_splits)
  have ylo: "x = 0 \<Longrightarrow> 32 \<le> y" using assms(3) by (simp add: x_def y_def split: if_splits)
  have yhi: "x = 13 \<Longrightarrow> y < 32" using assms(4) by (simp add: x_def y_def split: if_splits)
  have "a = 14 * 16 + x" by (simp add: x_def)
  then have am: "a mod 16 = x" using x dm(2) [of x 16 14] by simp
  have "b = 2 * 64 + y" by (simp add: y_def)
  then have bm: "b mod 64 = y" using y dm(2) [of y 64 2] by simp
  have "c = 2 * 64 + z" by (simp add: z_def)
  then have cm: "c mod 64 = z" using z dm(2) [of z 64 2] by simp
  have r: "r = x * 4096 + y * 64 + z" by (simp add: r_def am bm cm)
  have r1: "r = (x * 64 + y) * 64 + z" by (simp add: r)
  have yz: "0 \<le> y * 64 + z" "y * 64 + z < 4096" using y z by simp_all
  have r2: "r = x * 4096 + (y * 64 + z)" by (simp add: r)
  show "0x800 \<le> r"
  proof (cases "x = 0")
    case True
    with ylo have "32 \<le> y" by simp
    with z True show ?thesis by (simp add: r)
  next
    case False
    with x have "1 \<le> x" by simp
    with y z show ?thesis by (simp add: r)
  qed
  show "r \<le> 0xFFFF" using x y z by (simp add: r)
  show "\<not> (0xD800 \<le> r \<and> r \<le> 0xDFFF)"
  proof (cases "x = 13")
    case True
    with yhi have "y < 32" by simp
    with z True show ?thesis by (simp add: r)
  next
    case False
    then consider "x \<le> 12" | "14 \<le> x" by linarith
    then show ?thesis
    proof cases
      case 1
      with y z show ?thesis by (simp add: r)
    next
      case 2
      with y z show ?thesis by (simp add: r)
    qed
  qed
  have d1: "r div 4096 = x" unfolding r2 using yz by (rule dm(1))
  have d2: "r div 64 = x * 64 + y" unfolding r1 using z by (rule dm(1))
  have d3: "r mod 64 = z" unfolding r1 using z by (rule dm(2))
  have d4: "(x * 64 + y) mod 64 = y" using y by (rule dm(2))
  show "0xE0 + r div 4096 = a" by (simp add: d1 x_def)
  have "(r div 64) mod 64 = y" by (simp only: d2 d4)
  then show "0x80 + (r div 64) mod 64 = b" by (simp add: y_def)
  show "0x80 + r mod 64 = c" by (simp add: d3 z_def)
qed

lemma E4:
  fixes a b c d :: int
  assumes "0xF0 \<le> a" "a \<le> 0xF4" 
    "(if a = 0xF0 then 0x90 else 0x80) \<le> b" "b \<le> (if a = 0xF4 then 0x8F else 0xBF)"
    "0x80 \<le> c" "c \<le> 0xBF" "0x80 \<le> d" "d \<le> 0xBF"
  defines "r \<equiv> (a mod 8) * 262144 + (b mod 64) * 4096 + (c mod 64) * 64 + d mod 64"
  shows "0x10000 \<le> r" "r \<le> 0x10FFFF"
    "0xF0 + r div 262144 = a" "0x80 + (r div 4096) mod 64 = b"
    "0x80 + (r div 64) mod 64 = c" "0x80 + r mod 64 = d"
proof -
  define x where "x = a - 0xF0"
  define y where "y = b - 0x80"
  define z where "z = c - 0x80"
  define u where "u = d - 0x80"
  have x: "0 \<le> x" "x \<le> 4" and z: "0 \<le> z" "z < 64" and u: "0 \<le> u" "u < 64"
    using assms(1,2,5-8) by (simp_all add: x_def z_def u_def)
  have y: "0 \<le> y" "y < 64" using assms(3,4) by (simp_all add: y_def split: if_splits)
  have ylo: "x = 0 \<Longrightarrow> 16 \<le> y" using assms(3) by (simp add: x_def y_def split: if_splits)
  have yhi: "x = 4 \<Longrightarrow> y < 16" using assms(4) by (simp add: x_def y_def split: if_splits)
  have "a = 30 * 8 + x" by (simp add: x_def)
  then have am: "a mod 8 = x" using x dm(2) [of x 8 30] by simp
  have "b = 2 * 64 + y" by (simp add: y_def)
  then have bm: "b mod 64 = y" using y dm(2) [of y 64 2] by simp
  have "c = 2 * 64 + z" by (simp add: z_def)
  then have cm: "c mod 64 = z" using z dm(2) [of z 64 2] by simp
  have "d = 2 * 64 + u" by (simp add: u_def)
  then have dmm: "d mod 64 = u" using u dm(2) [of u 64 2] by simp
  have r: "r = x * 262144 + y * 4096 + z * 64 + u" by (simp add: r_def am bm cm dmm)
  have r1: "r = (x * 4096 + y * 64 + z) * 64 + u" by (simp add: r)
  have r2: "r = (x * 64 + y) * 4096 + (z * 64 + u)" by (simp add: r)
  have r3: "r = x * 262144 + (y * 4096 + z * 64 + u)" by (simp add: r)
  have zu: "0 \<le> z * 64 + u" "z * 64 + u < 4096" using z u by simp_all
  have yzu: "0 \<le> y * 4096 + z * 64 + u" "y * 4096 + z * 64 + u < 262144" using y z u by simp_all
  show "0x10000 \<le> r"
  proof (cases "x = 0")
    case True
    with ylo have "16 \<le> y" by simp
    with z u True show ?thesis by (simp add: r)
  next
    case False
    with x have "1 \<le> x" by simp
    with y z u show ?thesis by (simp add: r)
  qed
  show "r \<le> 0x10FFFF"
  proof (cases "x = 4")
    case True
    with yhi have "y < 16" by simp
    with z u True show ?thesis by (simp add: r)
  next
    case False
    with x have "x \<le> 3" by simp
    with y z u show ?thesis by (simp add: r)
  qed
  have d1: "r div 262144 = x" unfolding r3 using yzu by (rule dm(1))
  have d2: "r div 4096 = x * 64 + y" unfolding r2 using zu by (rule dm(1))
  have d3: "r div 64 = x * 4096 + y * 64 + z" unfolding r1 using u by (rule dm(1))
  have d4: "r mod 64 = u" unfolding r1 using u by (rule dm(2))
  have d5: "(x * 64 + y) mod 64 = y" using y by (rule dm(2))
  have e: "x * 4096 + y * 64 + z = (x * 64 + y) * 64 + z" by simp
  have d6: "(x * 4096 + y * 64 + z) mod 64 = z" by (subst e) (rule dm(2) [OF z])
  show "0xF0 + r div 262144 = a" by (simp add: d1 x_def)
  have "(r div 4096) mod 64 = y" by (simp only: d2 d5)
  then show "0x80 + (r div 4096) mod 64 = b" by (simp add: y_def)
  have "(r div 64) mod 64 = z" by (simp only: d3 d6)
  then show "0x80 + (r div 64) mod 64 = c" by (simp add: z_def)
  show "0x80 + r mod 64 = d" by (simp add: d4 u_def)
qed

subsection \<open>Encoding what was decoded\<close>

lemma take_nth2: "2 \<le> length s \<Longrightarrow> take 2 s = [s ! 0, s ! 1]"
  by (cases s; cases "tl s") auto

lemma take_nth3: "3 \<le> length s \<Longrightarrow> take 3 s = [s ! 0, s ! 1, s ! 2]"
  by (cases s; cases "tl s"; cases "tl (tl s)") auto

lemma take_nth4: "4 \<le> length s \<Longrightarrow> take 4 s = [s ! 0, s ! 1, s ! 2, s ! 3]"
  by (cases s; cases "tl s"; cases "tl (tl s)"; cases "tl (tl (tl s))") auto

lemma RuneLen_RuneError: "RuneLen RuneError = 3"
  by (simp add: RuneLen_def RuneError_def)

lemma DecodeRune_step:
  assumes ne: "s \<noteq> []" and dec: "DecodeRuneInString s = (r, w)"
  shows "(w = 1 \<and> r = byte (s ! 0) \<and> byte (s ! 0) < 0x80) \<or>
         (w = 1 \<and> r = RuneError \<and> 0x80 \<le> byte (s ! 0)) \<or>
         (2 \<le> w \<and> w \<le> length s \<and> EncodeRune r = take w s \<and> 0x80 \<le> r \<and> RuneLen r = int w)"
proof -
  let ?a = "byte (s ! 0)"
  consider (ascii) "?a < 0x80"
    | (bad) "0x80 \<le> ?a" "?a < 0xC2 \<or> 0xF4 < ?a"
    | (two) "0xC2 \<le> ?a" "?a < 0xE0"
    | (three) "0xE0 \<le> ?a" "?a < 0xF0"
    | (four) "0xF0 \<le> ?a" "?a \<le> 0xF4"
    by linarith
  then show ?thesis
  proof cases
    case ascii
    with D1 [OF ne] dec show ?thesis by simp
  next
    case bad
    with Dbad [OF ne] dec show ?thesis by simp
  next
    case two
    let ?b = "byte (s ! 1)"
    show ?thesis
    proof (cases "length s < 2 \<or> ?b < 0x80 \<or> 0xBF < ?b")
      case True
      with D2 [OF ne two] dec two show ?thesis by simp
    next
      case False
      then have len: "2 \<le> length s" and b: "0x80 \<le> ?b" "?b \<le> 0xBF" by simp_all
      from False D2 [OF ne two] dec
      have r: "r = (?a mod 32) * 64 + ?b mod 64" and w: "w = 2" by simp_all
      note e = E2 [OF two b, folded r]
      have "EncodeRune r = [char_of ?a, char_of ?b]"
        using e(1,2) by (simp add: EncodeRune_def e(3,4))
      then have "EncodeRune r = take w s"
        by (simp add: char_of_byte take_nth2 [OF len] w)
      moreover have "RuneLen r = 2" using e(1,2) by (simp add: RuneLen_def)
      ultimately show ?thesis using e(1) len w by simp
    qed
  next
    case three
    let ?b = "byte (s ! 1)" and ?c = "byte (s ! 2)"
    let ?bad = "length s < 3 \<or> ?b < (if ?a = 0xE0 then 0xA0 else 0x80)
          \<or> (if ?a = 0xED then 0x9F else 0xBF) < ?b \<or> ?c < 0x80 \<or> 0xBF < ?c"
    show ?thesis
    proof (cases ?bad)
      case True
      with D3 [OF ne three] dec three show ?thesis by simp
    next
      case False
      then have len: "3 \<le> length s"
        and b: "(if ?a = 0xE0 then 0xA0 else 0x80) \<le> ?b" "?b \<le> (if ?a = 0xED then 0x9F else 0xBF)"
        and c: "0x80 \<le> ?c" "?c \<le> 0xBF" by simp_all
      from False D3 [OF ne three] dec
      have r: "r = (?a mod 16) * 4096 + (?b mod 64) * 64 + ?c mod 64" and w: "w = 3"
        by simp_all
      note e = E3 [OF three b c, folded r]
      have "EncodeRune r = [char_of ?a, char_of ?b, char_of ?c]"
        using e(1-3) by (auto simp add: EncodeRune_def e(4-6))
      then have "EncodeRune r = take w s"
        by (simp add: char_of_byte take_nth3 [OF len] w)
      moreover have "RuneLen r = 3" using e(1-3) by (simp add: RuneLen_def)
      ultimately show ?thesis using e(1) len w by simp
    qed
  next
    case four
    let ?b = "byte (s ! 1)" and ?c = "byte (s ! 2)" and ?d = "byte (s ! 3)"
    let ?bad = "length s < 4 \<or> ?b < (if ?a = 0xF0 then 0x90 else 0x80)
          \<or> (if ?a = 0xF4 then 0x8F else 0xBF) < ?b \<or> ?c < 0x80 \<or> 0xBF < ?c
          \<or> ?d < 0x80 \<or> 0xBF < ?d"
    show ?thesis
    proof (cases ?bad)
      case True
      with D4 [OF ne four] dec four show ?thesis by simp
    next
      case False
      then have len: "4 \<le> length s"
        and b: "(if ?a = 0xF0 then 0x90 else 0x80) \<le> ?b" "?b \<le> (if ?a = 0xF4 then 0x8F else 0xBF)"
        and c: "0x80 \<le> ?c" "?c \<le> 0xBF" and d: "0x80 \<le> ?d" "?d \<le> 0xBF" by simp_all
      from False D4 [OF ne four] dec
      have r: "r = (?a mod 8) * 262144 + (?b mod 64) * 4096 + (?c mod 64) * 64 + ?d mod 64"
        and w: "w = 4" by simp_all
      note e = E4 [OF four b c d, folded r]
      have "EncodeRune r = [char_of ?a, char_of ?b, char_of ?c, char_of ?d]"
        using e(1,2) by (simp add: EncodeRune_def e(3-6))
      then have "EncodeRune r = take w s"
        by (simp add: char_of_byte take_nth4 [OF len] w)
      moreover have "RuneLen r = 4" using e(1,2) by (simp add: RuneLen_def)
      ultimately show ?thesis using e(1) len w by simp
    qed
  qed
qed

lemma foldl_pct:
  "foldl (\<lambda>enc r. enc @ ''%'' @ ToUpper (hex_EncodeToString [r])) acc bs =
     acc @ concat (map pct bs)"
  by (induction bs arbitrary: acc) (simp_all add: pct_def)

lemma encodeRunes_Cons:
  "encodeRunes p (r # rs) acc =
     (if reservedClass r then encodeRunes p rs (acc @ string_of_rune r)
      else if RuneLen r < 0 then p
      else encodeRunes p rs (acc @ concat (map pct (EncodeRune r))))"
proof -
  have c: "reservedClass r \<longleftrightarrow>
      (byte CHR ''A'' \<le> r \<and> r \<le> byte CHR ''Z'' \<or> byte CHR ''a'' \<le> r \<and> r \<le> byte CHR ''z'' \<or>
       byte CHR ''0'' \<le> r \<and> r \<le> byte CHR ''9'') \<or>
      (r = byte CHR ''-'' \<or> r = byte CHR ''_'' \<or> r = byte CHR ''.'' \<or>
       r = byte CHR ''~'' \<or> r = byte CHR ''/'')"
    unfolding reservedClass_def by blast
  have if_or: "(if a then x else if b then x else y) = (if a \<or> b then x else y)"
    for a b and x y :: string
    by simp
  show ?thesis
    unfolding encodeRunes.simps foldl_pct Let_def c if_or ..
qed

lemma encodeRunes_concat:
  "list_all (\<lambda>r. 0 \<le> RuneLen r) rs \<Longrightarrow>
     encodeRunes p rs acc = acc @ concat (map encodeOne rs)"
proof (induction rs arbitrary: acc)
  case Nil
  then show ?case by simp
next
  case (Cons r rs)
  then have len: "\<not> RuneLen r < 0" and rest: "list_all (\<lambda>r. 0 \<le> RuneLen r) rs"
    by simp_all
  show ?case
    unfolding encodeRunes_Cons using Cons.IH [OF rest] len
    by (simp add: encodeOne_def)
qed

lemma drop_pred: "0 < w \<Longrightarrow> drop (w - 1) cs = drop w (c # cs)"
  by (cases w) simp_all

lemma range_string_RuneLen: "list_all (\<lambda>r. 0 \<le> RuneLen r) (range_string s)"
proof (induction s rule: range_string.induct)
  case 1
  then show ?case by simp
next
  case (2 c cs)
  obtain r w where dec: "DecodeRuneInString (c # cs) = (r, w)"
    by (cases "DecodeRuneInString (c # cs)")
  from DecodeRune_step [OF _ dec] byte_bounds [of c]
  have "0 \<le> RuneLen r"
    by (auto simp add: RuneLen_RuneError) (simp add: RuneLen_def)
  with 2 [OF dec [symmetric]] dec show ?case by simp
qed

lemma hexdigits:
  "list_all (\<lambda>n. unhex (hd (ToUpper [hextable ! n])) = Some (int n)) [0..<16]"
  by code_simp

lemma hexdigit: "n < 16 \<Longrightarrow> unhex (hd (ToUpper [hextable ! n])) = Some (int n)"
  using hexdigits by (simp add: list_all_iff)

lemma ToUpper_two: "ToUpper [x, y] = [hd (ToUpper [x]), hd (ToUpper [y])]"
  by (simp add: ToUpper_def)

lemma byte_div_mod: "byte b div 16 * 16 + byte b mod 16 = byte b"
  by simp

lemma pd_pct: "percentDecode (pct b @ rest) = map_option ((#) b) (percentDecode rest)"
proof -
  let ?h = "nat (byte b div 16)" and ?l = "nat (byte b mod 16)"
  have h: "?h < 16" and l: "?l < 16"
    using byte_bounds [of b] by simp_all
  have ih: "int ?h = byte b div 16" and il: "int ?l = byte b mod 16"
    using byte_bounds [of b] by simp_all
  have p: "pct b = [CHR ''%'', hd (ToUpper [hextable ! ?h]), hd (ToUpper [hextable ! ?l])]"
    by (simp add: pct_def hex_EncodeToString_def ToUpper_two)
  have "percentDecode (pct b @ rest) =
      map_option ((#) (char_of (int ?h * 16 + int ?l))) (percentDecode rest)"
    unfolding p by (simp add: hexdigit [OF h] hexdigit [OF l] del: int_nat_eq)
  also have "int ?h * 16 + int ?l = byte b"
    unfolding ih il by simp
  finally show ?thesis by (simp add: char_of_byte)
qed

lemma map_option_Cons_append:
  "map_option ((#) b) (map_option ((@) bs) x) = map_option ((@) (b # bs)) x"
  by (cases x) simp_all

lemma pd_bytes:
  "percentDecode (concat (map pct bs) @ rest) = map_option ((@) bs) (percentDecode rest)"
proof (induction bs)
  case Nil
  show ?case by (cases "percentDecode rest") simp_all
next
  case (Cons b bs)
  then show ?case by (cases "percentDecode rest") (simp_all add: pd_pct)
qed

lemma reservedClass_not_percent: "reservedClass (byte c) \<Longrightarrow> c \<noteq> CHR ''%''"
  by (auto simp: reservedClass_def byte_def)

lemma EncodeRune_ascii: "byte c < 0x80 \<Longrightarrow> EncodeRune (byte c) = [c]"
  using byte_bounds [of c] by (simp add: EncodeRune_def char_of_byte)

lemma roundtrip_runes:
  "ValidString s \<Longrightarrow> percentDecode (concat (map encodeOne (range_string s))) = Some s"
proof (induction s rule: range_string.induct)
  case 1
  then show ?case by simp
next
  case (2 c cs)
  obtain r w where dec: "DecodeRuneInString (c # cs) = (r, w)"
    by (cases "DecodeRuneInString (c # cs)")
  from "2.prems" dec have ok: "\<not> (r = RuneError \<and> w = 1)"
    and valid: "ValidString (drop (w - 1) cs)" by simp_all
  note IH = "2.IH" [OF dec [symmetric] valid]
  have rs: "range_string (c # cs) = r # range_string (drop (w - 1) cs)"
    using dec by simp
  from DecodeRune_step [OF _ dec] ok
  consider (ascii) "w = 1" "r = byte c" "byte c < 0x80"
    | (multi) "2 \<le> w" "w \<le> length (c # cs)" "EncodeRune r = take w (c # cs)" "0x80 \<le> r"
    by auto
  then show ?case
  proof cases
    case ascii
    show ?thesis
    proof (cases "reservedClass r")
      case True
      with ascii have "encodeOne r = [c]" "c \<noteq> CHR ''%''"
        by (simp_all add: encodeOne_def string_of_rune_def EncodeRune_ascii
            reservedClass_not_percent)
      with IH ascii show ?thesis unfolding rs by simp
    next
      case False
      with ascii have "encodeOne r = pct c @ []"
        by (simp add: encodeOne_def EncodeRune_ascii)
      with IH ascii show ?thesis unfolding rs by (simp add: pd_pct del: append_Nil2)
    qed
  next
    case multi
    then have "\<not> reservedClass r"
      using reservedClass_ascii [of r] by auto
    with multi have e: "encodeOne r = concat (map pct (take w (c # cs)))"
      by (simp add: encodeOne_def)
    have d: "drop (w - 1) cs = drop w (c # cs)"
      using multi(1) by (intro drop_pred) simp
    note IH' = IH [unfolded d] and rs' = rs [unfolded d]
    have "percentDecode (concat (map encodeOne (range_string (c # cs)))) =
        map_option ((@) (take w (c # cs))) (Some (drop w (c # cs)))"
      unfolding rs' using IH' by (simp add: e pd_bytes del: take_Suc_Cons drop_Suc_Cons)
    then show ?thesis by (simp del: take_Suc_Cons drop_Suc_Cons)
  qed
qed

lemma class_runes_ascii:
  "list_all reservedClass (range_string s) \<Longrightarrow> list_all unreservedByte s"
proof (induction s rule: range_string.induct)
  case 1
  then show ?case by simp
next
  case (2 c cs)
  obtain r w where dec: "DecodeRuneInString (c # cs) = (r, w)"
    by (cases "DecodeRuneInString (c # cs)")
  from "2.prems" dec have cl: "reservedClass r"
    and rest: "list_all reservedClass (range_string (drop (w - 1) cs))" by simp_all
  from reservedClass_ascii [OF cl] have r: "r < 0x80" "r \<noteq> RuneError"
    by (simp_all add: RuneError_def)
  from DecodeRune_step [OF _ dec] r have w: "w = 1" and rc: "r = byte c" by auto
  from "2.IH" [OF dec [symmetric] rest] w cl rc show ?case
    by (simp add: unreservedByte_class)
qed

lemma MatchString_iff: "reservedNames_MatchString p \<longleftrightarrow> matchesUnreserved p"
proof
  assume m: "reservedNames_MatchString p"
  then have "list_all unreservedByte p"
    by (simp add: reservedNames_MatchString_def class_runes_ascii)
  moreover from m have "p \<noteq> []"
    by (auto simp: reservedNames_MatchString_def)
  ultimately show "matchesUnreserved p" by (simp add: matchesUnreserved_def)
qed (rule matchesUnreserved_MatchString)

lemma getURLEncodedPath_eq:
  "getURLEncodedPath p =
     (if matchesUnreserved p then p else concat (map encodeOne (range_string p)))"
  by (simp add: getURLEncodedPath_def MatchString_iff encodeRunes_concat range_string_RuneLen)


lemma pd_unreserved: "list_all unreservedByte p \<Longrightarrow> percentDecode p = Some p"
proof (induction p)
  case Nil
  then show ?case by simp
next
  case (Cons c cs)
  then have "c \<noteq> CHR ''%''"
    by (simp add: unreservedByte_class reservedClass_not_percent)
  with Cons show ?case by simp
qed

lemma roundtrip_valid_utf8:
  "ValidString p \<Longrightarrow> percentDecode (getURLEncodedPath p) = Some p"
  by (simp add: getURLEncodedPath_eq roundtrip_runes pd_unreserved matchesUnreserved_def)

lemma encodePath_ill_formed:
  "getURLEncodedPath [CHR 0xFF] = ''%EF%BF%BD'' \<and>
   percentDecode ''%EF%BF%BD'' = Some [CHR 0xEF, CHR 0xBF, CHR 0xBD]"
  by code_simp


section \<open>Header signing\<close>

subsection \<open>The metadata section as a function of the header map\<close>

















subsection \<open>The Authorization value\<close>











text \<open>
  The first proviso is needed. When two metadata header names coincide after
  lower-casing, the string to sign, and with it the signature, depends on the order in
  which the header map is visited.
\<close>

lemma getStringToSign_collision_order:
  "getStringToSign []
     \<lparr>req = \<lparr>Method = ''PUT'',
             URL = \<lparr>Scheme = ''http'', Host = ''s3.example.com'',
                    Path = ''/mybucket/mykey'', RawQuery = ''''\<rparr>,
             Header = [(''X-Amz-Meta-A'', [''1'']), (''x-amz-meta-a'', [''2''])]\<rparr>,
      config = \<lparr>AccessKeyID = ''AK'', SecretAccessKey = ''SK'', Region = ''us-east-1'',
                isVirtualStyle = False, userAgent = ''minio-go'', AcceptType = ''''\<rparr>,
      body = None, expires = 0\<rparr>
   \<noteq> getStringToSign []
     \<lparr>req = \<lparr>Method = ''PUT'',
             URL = \<lparr>Scheme = ''http'', Host = ''s3.example.com'',
                    Path = ''/mybucket/mykey'', RawQuery = ''''\<rparr>,
             Header = [(''x-amz-meta-a'', [''2'']), (''X-Amz-Meta-A'', [''1''])]\<rparr>,
      config = \<lparr>AccessKeyID = ''AK'', SecretAccessKey = ''SK'', Region = ''us-east-1'',
                isVirtualStyle = False, userAgent = ''minio-go'', AcceptType = ''''\<rparr>,
      body = None, expires = 0\<rparr>"
  by code_simp

end
